theory Spec2Isabelle
  imports Main
begin

section \<open>Student registration validation (Sistem\_Validasi\_Registrasi\_Mahasiswa.py)\<close>

text \<open>
  A shallow embedding of the rule engine: the dataclasses \<open>Course\<close> and
  \<open>Registration\<close>, the three rules \<open>SksLimitRule\<close>, \<open>PrerequisiteRule\<close> and
  \<open>JadwalBentrokRule\<close>, the helper \<open>format_time\<close> and
  \<open>RegistrationService.run_registration\<close>.

  Python integers are unbounded, so they are \<open>int\<close>; \<open>//\<close> and \<open>%\<close> round towards
  minus infinity, as \<open>div\<close> and \<open>mod\<close> on \<open>int\<close> do. Strings are \<open>string\<close>.
  Every method reads and writes one program state: the module-level logger, the
  \<open>Registration\<close> object handed to the call and the rule list held by the service.
\<close>

subsection \<open>Models\<close>

type_synonym ScheduleEntry = "string \<times> int \<times> int"

record Course =
  code :: string
  name :: string
  sks :: int
  prerequisites :: "string list"
  schedule :: "ScheduleEntry list"

record Registration =
  student_name :: string
  completed_courses :: "string list"
  selected_courses :: "Course list"

datatype rule = SksLimitRule (max_sks: int) | PrerequisiteRule | JadwalBentrokRule

subsection \<open>The logging side channel\<close>

text \<open>
  The module logger of the standard library: a record is handed to the handlers when
  the logger is not disabled and the record's level number reaches the logger's level
  (\<open>basicConfig(level=logging.INFO)\<close> sets 20). The handlers are a list of the records
  they received. Nothing in the source reads the logger.
\<close>

datatype log_level = INFO | WARNING | ERROR

fun levelno :: "log_level \<Rightarrow> nat" where
  "levelno INFO = 20"
| "levelno WARNING = 30"
| "levelno ERROR = 40"

record logger =
  disabled :: bool
  level :: nat
  handled :: "(log_level \<times> string) list"

record state =
  st_logger :: logger
  st_registration :: Registration
  st_rules :: "rule list"

definition log :: "log_level \<Rightarrow> string \<Rightarrow> state \<Rightarrow> state" where
  "log lv msg s =
     (let lg = st_logger s in
      if \<not> disabled lg \<and> level lg \<le> levelno lv
      then s\<lparr>st_logger := lg\<lparr>handled := handled lg @ [(lv, msg)]\<rparr>\<rparr>
      else s)"

subsection \<open>Formatting integers\<close>

text \<open>
  \<open>str_int\<close> is the f-string rendering \<open>{n}\<close> of an integer; \<open>fmt_02d\<close> is \<open>{n:02d}\<close>:
  zero padding to width 2, the sign counted in the width and written before the zeros.
\<close>

definition digit_char :: "nat \<Rightarrow> char" where
  "digit_char d = ''0123456789'' ! (d mod 10)"

function str_nat :: "nat \<Rightarrow> string" where
  "str_nat n = (if n < 10 then [digit_char n] else str_nat (n div 10) @ [digit_char (n mod 10)])"
  by pat_completeness auto
termination
  by (relation "measure (\<lambda>n. n)") auto

declare str_nat.simps [simp del]

definition str_int :: "int \<Rightarrow> string" where
  "str_int i = (if i < 0 then ''-'' @ str_nat (nat (- i)) else str_nat (nat i))"

definition zfill :: "nat \<Rightarrow> string \<Rightarrow> string" where
  "zfill w ds = replicate (w - length ds) (CHR ''0'') @ ds"

definition fmt_02d :: "int \<Rightarrow> string" where
  "fmt_02d i = (if i < 0 then ''-'' @ zfill 1 (str_nat (nat (- i))) else zfill 2 (str_nat (nat i)))"

definition format_time :: "int \<Rightarrow> string" where
  "format_time minutes =
     (let h = minutes div 60;
          m = minutes mod 60
      in fmt_02d h @ '':'' @ fmt_02d m)"

fun join :: "string \<Rightarrow> string list \<Rightarrow> string" where
  "join sep [] = []"
| "join sep [x] = x"
| "join sep (x # y # ys) = x @ sep @ join sep (y # ys)"

subsection \<open>SksLimitRule\<close>

definition SksLimitRule_validate :: "int \<Rightarrow> state \<Rightarrow> (bool \<times> string) \<times> state" where
  "SksLimitRule_validate max_sks' s =
     (let total = sum_list (map sks (selected_courses (st_registration s)));
          s1 = log INFO (''Memeriksa total SKS: '' @ str_int total @ ''/'' @ str_int max_sks') s
      in if total > max_sks' then
           (let msg = ''Total SKS ('' @ str_int total @ '') melebihi batas maksimum (''
                        @ str_int max_sks' @ '').''
            in ((False, msg), log WARNING msg s1))
         else ((True, ''SKS OK.''), s1))"

subsection \<open>PrerequisiteRule\<close>

text \<open>The inner loop over \<open>course.prerequisites\<close> and the outer loop over the selected courses.\<close>

fun missing_of_course :: "string set \<Rightarrow> string \<Rightarrow> string list \<Rightarrow> (string \<times> string) list
    \<Rightarrow> (string \<times> string) list" where
  "missing_of_course completed c [] missing = missing"
| "missing_of_course completed c (pre # pres) missing =
     missing_of_course completed c pres
       (if pre \<notin> completed then missing @ [(c, pre)] else missing)"

fun collect_missing :: "string set \<Rightarrow> Course list \<Rightarrow> (string \<times> string) list
    \<Rightarrow> (string \<times> string) list" where
  "collect_missing completed [] missing = missing"
| "collect_missing completed (course # cs) missing =
     collect_missing completed cs
       (missing_of_course completed (code course) (prerequisites course) missing)"

definition butuh :: "string \<times> string \<Rightarrow> string" where
  "butuh cp = fst cp @ '' butuh '' @ snd cp"

definition PrerequisiteRule_validate :: "state \<Rightarrow> (bool \<times> string) \<times> state" where
  "PrerequisiteRule_validate s =
     (let completed = set (completed_courses (st_registration s));
          s1 = log INFO ''Memeriksa prasyarat mata kuliah...'' s;
          missing = collect_missing completed (selected_courses (st_registration s1)) []
      in if missing \<noteq> [] then
           (let msgs = map butuh missing;
                full_msg = ''Prasyarat tidak terpenuhi: '' @ join '', '' msgs
            in ((False, full_msg), log WARNING full_msg s1))
         else ((True, ''Prasyarat OK.''), s1))"

subsection \<open>JadwalBentrokRule\<close>

type_synonym entry = "string \<times> int \<times> int \<times> string"

fun entries_of_course :: "string \<Rightarrow> ScheduleEntry list \<Rightarrow> entry list \<Rightarrow> entry list" where
  "entries_of_course c [] entries = entries"
| "entries_of_course c ((day, s, e) # rest) entries =
     entries_of_course c rest (entries @ [(day, s, e, c)])"

fun collect_entries :: "Course list \<Rightarrow> entry list \<Rightarrow> entry list" where
  "collect_entries [] entries = entries"
| "collect_entries (course # cs) entries =
     collect_entries cs (entries_of_course (code course) (schedule course) entries)"

definition bentrok_msg :: "entry \<Rightarrow> entry \<Rightarrow> string" where
  "bentrok_msg a b =
     (case a of (day_i, s_i, e_i, c_i) \<Rightarrow> case b of (day_j, s_j, e_j, c_j) \<Rightarrow>
        ''Jadwal bentrok antara '' @ c_i @ '' ('' @ format_time s_i @ ''-'' @ format_time e_i
          @ '') dan '' @ c_j @ '' ('' @ format_time s_j @ ''-'' @ format_time e_j @ '')'')"

text \<open>
  The two index loops. \<open>scan_inner\<close> is \<open>for j in range(i+1, len(entries))\<close> from the
  index \<open>j\<close> on, \<open>scan_outer\<close> is \<open>for i in range(len(entries))\<close> from \<open>i\<close> on; the
  result is the pair of entries at which the method returns, or \<open>None\<close> when the
  loop runs to its end.
\<close>

function scan_inner :: "entry list \<Rightarrow> nat \<Rightarrow> nat \<Rightarrow> (entry \<times> entry) option" where
  "scan_inner entries i j =
     (if j < length entries then
        (case entries ! i of (day_i, s_i, e_i, c_i) \<Rightarrow>
         case entries ! j of (day_j, s_j, e_j, c_j) \<Rightarrow>
           if day_i \<noteq> day_j then scan_inner entries i (j + 1)
           else if s_i < e_j \<and> s_j < e_i then Some (entries ! i, entries ! j)
           else scan_inner entries i (j + 1))
      else None)"
  by pat_completeness auto
termination
  by (relation "measure (\<lambda>(entries, i, j). length entries - j)") auto

declare scan_inner.simps [simp del]

function scan_outer :: "entry list \<Rightarrow> nat \<Rightarrow> (entry \<times> entry) option" where
  "scan_outer entries i =
     (if i < length entries then
        (case scan_inner entries i (i + 1) of
           Some p \<Rightarrow> Some p
         | None \<Rightarrow> scan_outer entries (i + 1))
      else None)"
  by pat_completeness auto
termination
  by (relation "measure (\<lambda>(entries, i). length entries - i)") auto

declare scan_outer.simps [simp del]

definition JadwalBentrokRule_validate :: "state \<Rightarrow> (bool \<times> string) \<times> state" where
  "JadwalBentrokRule_validate s =
     (let s1 = log INFO ''Memeriksa bentrok jadwal...'' s;
          entries = collect_entries (selected_courses (st_registration s1)) []
      in case scan_outer entries 0 of
           Some (a, b) \<Rightarrow>
             (let msg = bentrok_msg a b in ((False, msg), log WARNING msg s1))
         | None \<Rightarrow> ((True, ''Tidak ada jadwal bentrok.''), s1))"

subsection \<open>RegistrationService\<close>

fun validate :: "rule \<Rightarrow> state \<Rightarrow> (bool \<times> string) \<times> state" where
  "validate (SksLimitRule m) s = SksLimitRule_validate m s"
| "validate PrerequisiteRule s = PrerequisiteRule_validate s"
| "validate JadwalBentrokRule s = JadwalBentrokRule_validate s"

text \<open>The loop \<open>for rule in self.rules\<close>, with the list \<open>errors\<close> as accumulator.\<close>

fun run_rules :: "rule list \<Rightarrow> state \<Rightarrow> string list \<Rightarrow> string list \<times> state" where
  "run_rules [] s errors = (errors, s)"
| "run_rules (r # rs) s errors =
     (case validate r s of
        ((ok, msg), s') \<Rightarrow> run_rules rs s' (if \<not> ok then errors @ [msg] else errors))"

definition run_registration :: "state \<Rightarrow> (bool \<times> string list) \<times> state" where
  "run_registration s =
     (let s1 = log INFO (''Memulai validasi pendaftaran untuk: ''
                 @ student_name (st_registration s)) s
      in case run_rules (st_rules s1) s1 [] of
           (errors, s2) \<Rightarrow>
             if errors \<noteq> [] then
               ((False, errors),
                log ERROR (''Validasi gagal dengan '' @ str_int (int (length errors))
                  @ '' error.'') s2)
             else ((True, [''Validasi sukses.'']), log INFO ''Semua validasi berhasil.'' s2))"

subsection \<open>The demo's data\<close>

text \<open>
  The helper \<open>minutes\<close> and the values that \<open>demo()\<close> builds; \<open>demo_logger\<close> is the
  logger as \<open>basicConfig(level=logging.INFO)\<close> leaves it, with nothing handled yet.
\<close>

definition minutes :: "int \<Rightarrow> int \<Rightarrow> int" where
  "minutes h m = h * 60 + m"

definition mat101 :: Course where
  "mat101 = \<lparr>code = ''MAT101'', name = ''Matematika Dasar'', sks = 3, prerequisites = [],
              schedule = [(''Senin'', minutes 9 0, minutes 11 0)]\<rparr>"

definition fis201 :: Course where
  "fis201 = \<lparr>code = ''FIS201'', name = ''Fisika I'', sks = 4, prerequisites = [''MAT101''],
              schedule = [(''Senin'', minutes 10 30, minutes 12 0)]\<rparr>"

definition ifs300 :: Course where
  "ifs300 = \<lparr>code = ''IFS300'', name = ''Ilmu Komputer Lanjut'', sks = 3,
              prerequisites = [''MAT101'', ''FIS201''],
              schedule = [(''Selasa'', minutes 9 0, minutes 11 0)]\<rparr>"

definition demo_registration :: Registration where
  "demo_registration = \<lparr>student_name = ''Ani'', completed_courses = [''MAT101''],
                         selected_courses = [mat101, fis201, ifs300]\<rparr>"

definition demo_logger :: logger where
  "demo_logger = \<lparr>disabled = False, level = 20, handled = []\<rparr>"

definition demo_state :: state where
  "demo_state = \<lparr>st_logger = demo_logger, st_registration = demo_registration,
                  st_rules = [SksLimitRule 24, PrerequisiteRule, JadwalBentrokRule]\<rparr>"

subsection \<open>Further registrations used as examples\<close>

text \<open>
  Two more courses in the style of the demo and a state for any selection of courses:
  \<open>KIM110\<close> starts on Monday when \<open>MAT101\<close> ends and overlaps \<open>FIS201\<close>; \<open>BIO120\<close> has
  two Monday entries that overlap each other and \<open>MAT101\<close>.
\<close>

definition kim110 :: Course where
  "kim110 = \<lparr>code = ''KIM110'', name = ''Kimia Dasar'', sks = 3, prerequisites = [],
              schedule = [(''Senin'', minutes 11 0, minutes 13 0)]\<rparr>"

definition bio120 :: Course where
  "bio120 = \<lparr>code = ''BIO120'', name = ''Biologi Umum'', sks = 2, prerequisites = [],
              schedule = [(''Senin'', minutes 9 0, minutes 11 0),
                          (''Senin'', minutes 10 0, minutes 12 0)]\<rparr>"

definition state_of :: "Course list \<Rightarrow> state" where
  "state_of cs = demo_state\<lparr>st_registration := demo_registration\<lparr>selected_courses := cs\<rparr>\<rparr>"

subsection \<open>Vocabulary of the specification\<close>

text \<open>
  These definitions are not code of the program: they say, in the specification's
  words, what the loops of the rules are compared with. \<open>all_missing_pairs\<close> lists
  every (course code, prerequisite) pair whose prerequisite is not among the completed
  courses, in course order and then prerequisite order. \<open>flat_entries\<close> is the list of
  all schedule entries of the selected courses, each tagged with its course code, in
  course order and then schedule order. \<open>conflict\<close> is the half-open overlap of two
  entries of the same day. \<open>first_conflict es i j\<close> says that \<open>(i, j)\<close> is the first
  overlapping pair of \<open>es\<close> in the scan order (outer index \<open>i\<close>, inner index \<open>j > i\<close>).
\<close>

definition all_missing_pairs :: "Registration \<Rightarrow> (string \<times> string) list" where
  "all_missing_pairs reg =
     concat (map (\<lambda>c. map (\<lambda>p. (code c, p))
                        (filter (\<lambda>p. p \<notin> set (completed_courses reg)) (prerequisites c)))
                 (selected_courses reg))"

definition tag :: "string \<Rightarrow> ScheduleEntry \<Rightarrow> entry" where
  "tag c x = (case x of (day, s, e) \<Rightarrow> (day, s, e, c))"

definition flat_entries :: "Registration \<Rightarrow> entry list" where
  "flat_entries reg =
     concat (map (\<lambda>c. map (tag (code c)) (schedule c)) (selected_courses reg))"

definition entry_code :: "entry \<Rightarrow> string" where
  "entry_code a = (case a of (day, s, e, c) \<Rightarrow> c)"

definition conflict :: "entry \<Rightarrow> entry \<Rightarrow> bool" where
  "conflict a b =
     (case a of (day_a, s_a, e_a, c_a) \<Rightarrow> case b of (day_b, s_b, e_b, c_b) \<Rightarrow>
        day_a = day_b \<and> s_a < e_b \<and> s_b < e_a)"

definition first_conflict :: "entry list \<Rightarrow> nat \<Rightarrow> nat \<Rightarrow> bool" where
  "first_conflict es i j =
     (i < j \<and> j < length es \<and> conflict (es ! i) (es ! j)
      \<and> (\<forall>b \<in> {0..<length es}. \<forall>a \<in> {0..<b}.
            (a < i \<or> (a = i \<and> b < j)) \<longrightarrow> \<not> conflict (es ! a) (es ! b)))"

section \<open>Auxiliary facts\<close>

subsection \<open>What a call reads and what it writes\<close>

lemma log_registration [simp]: "st_registration (log lv msg s) = st_registration s"
  by (simp add: log_def Let_def)

lemma log_rules [simp]: "st_rules (log lv msg s) = st_rules s"
  by (simp add: log_def Let_def)

lemma SksLimitRule_validate_frame:
  "st_registration (snd (SksLimitRule_validate m s)) = st_registration s"
  "st_rules (snd (SksLimitRule_validate m s)) = st_rules s"
  by (simp_all add: SksLimitRule_validate_def Let_def)

lemma PrerequisiteRule_validate_frame:
  "st_registration (snd (PrerequisiteRule_validate s)) = st_registration s"
  "st_rules (snd (PrerequisiteRule_validate s)) = st_rules s"
  by (simp_all add: PrerequisiteRule_validate_def Let_def)

lemma JadwalBentrokRule_validate_frame:
  "st_registration (snd (JadwalBentrokRule_validate s)) = st_registration s"
  "st_rules (snd (JadwalBentrokRule_validate s)) = st_rules s"
  by (simp_all add: JadwalBentrokRule_validate_def Let_def split: option.splits prod.splits)

lemma validate_frame:
  "st_registration (snd (validate r s)) = st_registration s"
  "st_rules (snd (validate r s)) = st_rules s"
  by (cases r; simp add: SksLimitRule_validate_frame PrerequisiteRule_validate_frame
      JadwalBentrokRule_validate_frame)+

lemma SksLimitRule_validate_reads:
  "st_registration s = st_registration s' \<Longrightarrow>
   fst (SksLimitRule_validate m s) = fst (SksLimitRule_validate m s')"
  by (simp add: SksLimitRule_validate_def Let_def)

lemma PrerequisiteRule_validate_reads:
  "st_registration s = st_registration s' \<Longrightarrow>
   fst (PrerequisiteRule_validate s) = fst (PrerequisiteRule_validate s')"
  by (simp add: PrerequisiteRule_validate_def Let_def)

lemma JadwalBentrokRule_validate_reads:
  "st_registration s = st_registration s' \<Longrightarrow>
   fst (JadwalBentrokRule_validate s) = fst (JadwalBentrokRule_validate s')"
  by (simp add: JadwalBentrokRule_validate_def Let_def split: option.splits prod.splits)

lemma validate_reads:
  assumes "st_registration s = st_registration s'"
  shows "fst (validate r s) = fst (validate r s')"
proof (cases r)
  case (SksLimitRule m)
  then show ?thesis using assms by (simp add: SksLimitRule_validate_reads [of s s'])
next
  case PrerequisiteRule
  then show ?thesis using assms by (simp add: PrerequisiteRule_validate_reads [of s s'])
next
  case JadwalBentrokRule
  then show ?thesis using assms by (simp add: JadwalBentrokRule_validate_reads [of s s'])
qed

subsection \<open>The loop over the rules\<close>

lemma run_rules_eq:
  "run_rules rs s errors =
     (errors @ map snd (filter (\<lambda>out. \<not> fst out) (map (\<lambda>r. fst (validate r s)) rs)),
      foldl (\<lambda>t r. snd (validate r t)) s rs)"
proof (induction rs arbitrary: s errors)
  case Nil
  show ?case by simp
next
  case (Cons r rs)
  define s' where "s' = snd (validate r s)"
  define out where "out = fst (validate r s)"
  have v: "validate r s = ((fst out, snd out), s')"
    by (simp add: s'_def out_def)
  have reg: "st_registration s' = st_registration s"
    unfolding s'_def by (rule validate_frame(1))
  have same: "map (\<lambda>r. fst (validate r s')) rs = map (\<lambda>r. fst (validate r s)) rs"
    using validate_reads [OF reg] by simp
  have step: "run_rules (r # rs) s errors
      = run_rules rs s' (if \<not> fst out then errors @ [snd out] else errors)"
    by (simp only: run_rules.simps v prod.case)
  have fold: "foldl (\<lambda>t r. snd (validate r t)) s (r # rs) = foldl (\<lambda>t r. snd (validate r t)) s' rs"
    by (simp add: s'_def)
  show ?case
    unfolding step fold Cons.IH same
    by (simp add: out_def)
qed

lemma run_registration_eq:
  "run_registration s =
     (let s1 = log INFO (''Memulai validasi pendaftaran untuk: '' @ student_name (st_registration s)) s;
          s2 = foldl (\<lambda>t r. snd (validate r t)) s1 (st_rules s);
          errors = map snd (filter (\<lambda>out. \<not> fst out) (map (\<lambda>r. fst (validate r s)) (st_rules s)))
      in if errors \<noteq> [] then
           ((False, errors),
            log ERROR (''Validasi gagal dengan '' @ str_int (int (length errors)) @ '' error.'') s2)
         else ((True, [''Validasi sukses.'']), log INFO ''Semua validasi berhasil.'' s2))"
proof -
  define s1 where "s1 = log INFO (''Memulai validasi pendaftaran untuk: '' @ student_name (st_registration s)) s"
  define s2 where "s2 = foldl (\<lambda>t r. snd (validate r t)) s1 (st_rules s)"
  define errors where
    "errors = map snd (filter (\<lambda>out. \<not> fst out) (map (\<lambda>r. fst (validate r s)) (st_rules s)))"
  have reg: "st_registration s1 = st_registration s" and rules: "st_rules s1 = st_rules s"
    by (simp_all add: s1_def)
  have "(\<lambda>r. fst (validate r s1)) = (\<lambda>r. fst (validate r s))"
    using validate_reads [OF reg] by auto
  then have rr: "run_rules (st_rules s1) s1 [] = (errors, s2)"
    unfolding run_rules_eq errors_def s2_def rules by simp
  have "run_registration s =
      (case run_rules (st_rules s1) s1 [] of
           (errors, s2) \<Rightarrow>
             if errors \<noteq> [] then
               ((False, errors),
                log ERROR (''Validasi gagal dengan '' @ str_int (int (length errors))
                  @ '' error.'') s2)
             else ((True, [''Validasi sukses.'']), log INFO ''Semua validasi berhasil.'' s2))"
    unfolding run_registration_def s1_def Let_def ..
  also have "\<dots> = (if errors \<noteq> [] then
           ((False, errors),
            log ERROR (''Validasi gagal dengan '' @ str_int (int (length errors)) @ '' error.'') s2)
         else ((True, [''Validasi sukses.'']), log INFO ''Semua validasi berhasil.'' s2))"
    unfolding rr prod.case ..
  finally show ?thesis
    unfolding Let_def s1_def [symmetric] s2_def [symmetric] errors_def [symmetric] .
qed

lemma no_failures_iff:
  "(map snd (filter (\<lambda>out. \<not> fst out) (map (\<lambda>r. fst (validate r s)) rs)) = [])
     = list_all (\<lambda>r. fst (fst (validate r s))) rs"
  by (induction rs) simp_all

lemma length_failures:
  "length (map snd (filter (\<lambda>out. \<not> fst out) (map (\<lambda>r. fst (validate r s)) rs)))
     = length (filter (\<lambda>r. \<not> fst (fst (validate r s))) rs)"
  by (induction rs) simp_all

lemma run_registration_result:
  "fst (run_registration s) =
     (if list_all (\<lambda>r. fst (fst (validate r s))) (st_rules s)
      then (True, [''Validasi sukses.''])
      else (False, map snd (filter (\<lambda>out. \<not> fst out) (map (\<lambda>r. fst (validate r s)) (st_rules s)))))"
  unfolding run_registration_eq Let_def no_failures_iff by simp

lemma run_registration_state:
  "snd (run_registration s) =
     (let s1 = log INFO (''Memulai validasi pendaftaran untuk: '' @ student_name (st_registration s)) s;
          s2 = foldl (\<lambda>t r. snd (validate r t)) s1 (st_rules s);
          n = length (filter (\<lambda>r. \<not> fst (fst (validate r s))) (st_rules s))
      in if list_all (\<lambda>r. fst (fst (validate r s))) (st_rules s)
         then log INFO ''Semua validasi berhasil.'' s2
         else log ERROR (''Validasi gagal dengan '' @ str_int (int n) @ '' error.'') s2)"
  unfolding run_registration_eq Let_def no_failures_iff length_failures by simp

lemma foldl_validate_frame:
  "st_registration (foldl (\<lambda>t r. snd (validate r t)) s rs) = st_registration s
   \<and> st_rules (foldl (\<lambda>t r. snd (validate r t)) s rs) = st_rules s"
  by (induction rs arbitrary: s) (simp_all add: validate_frame)

lemma run_registration_frame:
  "st_registration (snd (run_registration s)) = st_registration s
   \<and> st_rules (snd (run_registration s)) = st_rules s"
  by (simp add: run_registration_state Let_def foldl_validate_frame)

lemma run_registration_reads:
  assumes "st_registration s = st_registration s'" and "st_rules s = st_rules s'"
  shows "fst (run_registration s) = fst (run_registration s')"
proof -
  have "fst (validate r s) = fst (validate r s')" for r
    by (rule validate_reads [OF assms(1)])
  then show ?thesis
    unfolding run_registration_result assms(2) by simp
qed

subsection \<open>The loops of PrerequisiteRule\<close>

lemma missing_of_course_eq:
  "missing_of_course completed c pres missing =
     missing @ map (\<lambda>p. (c, p)) (filter (\<lambda>p. p \<notin> completed) pres)"
  by (induction pres arbitrary: missing) simp_all

lemma collect_missing_eq:
  "collect_missing completed cs missing =
     missing @ concat (map (\<lambda>c. map (\<lambda>p. (code c, p))
                              (filter (\<lambda>p. p \<notin> completed) (prerequisites c))) cs)"
  by (induction cs arbitrary: missing) (simp_all add: missing_of_course_eq)

lemma PrerequisiteRule_validate_eq:
  "fst (PrerequisiteRule_validate s) =
     (if all_missing_pairs (st_registration s) = [] then (True, ''Prasyarat OK.'')
      else (False, ''Prasyarat tidak terpenuhi: ''
                   @ join '', '' (map butuh (all_missing_pairs (st_registration s)))))"
  by (simp add: PrerequisiteRule_validate_def Let_def collect_missing_eq all_missing_pairs_def)

lemma set_all_missing_pairs:
  "set (all_missing_pairs reg) =
     {(code c, p) | c p. c \<in> set (selected_courses reg) \<and> p \<in> set (prerequisites c)
                         \<and> p \<notin> set (completed_courses reg)}"
  by (auto simp: all_missing_pairs_def)

lemma all_missing_pairs_empty_iff:
  "(all_missing_pairs reg = []) =
     (\<forall>c \<in> set (selected_courses reg). \<forall>p \<in> set (prerequisites c). p \<in> set (completed_courses reg))"
proof -
  have "(all_missing_pairs reg = []) = (set (all_missing_pairs reg) = {})"
    by simp
  also have "\<dots> = (\<forall>c \<in> set (selected_courses reg). \<forall>p \<in> set (prerequisites c). p \<in> set (completed_courses reg))"
    unfolding set_all_missing_pairs by blast
  finally show ?thesis .
qed

lemma all_missing_pairs_no_prerequisites:
  "prerequisites c = [] \<Longrightarrow>
   all_missing_pairs (reg\<lparr>selected_courses := cs1 @ c # cs2\<rparr>)
     = all_missing_pairs (reg\<lparr>selected_courses := cs1 @ cs2\<rparr>)"
  by (simp add: all_missing_pairs_def)

subsection \<open>The loops of JadwalBentrokRule\<close>

lemma entries_of_course_eq:
  "entries_of_course c sched entries = entries @ map (tag c) sched"
  by (induction c sched entries rule: entries_of_course.induct) (simp_all add: tag_def)

lemma collect_entries_eq:
  "collect_entries cs entries =
     entries @ concat (map (\<lambda>c. map (tag (code c)) (schedule c)) cs)"
  by (induction cs arbitrary: entries) (simp_all add: entries_of_course_eq)

lemma scan_inner_step:
  "scan_inner es i j =
     (if j < length es then
        (if conflict (es ! i) (es ! j) then Some (es ! i, es ! j) else scan_inner es i (Suc j))
      else None)"
  by (subst scan_inner.simps) (auto simp: conflict_def split: prod.splits)

lemma scan_inner_None:
  "(scan_inner es i j = None) = (\<forall>k. j \<le> k \<and> k < length es \<longrightarrow> \<not> conflict (es ! i) (es ! k))"
proof (induction "length es - j" arbitrary: j)
  case 0
  then show ?case by (subst scan_inner_step) auto
next
  case (Suc n)
  then have j: "j < length es" and n: "n = length es - Suc j" by simp_all
  have "(\<forall>k. j \<le> k \<and> k < length es \<longrightarrow> \<not> conflict (es ! i) (es ! k))
      = (\<not> conflict (es ! i) (es ! j) \<and> (\<forall>k. Suc j \<le> k \<and> k < length es \<longrightarrow> \<not> conflict (es ! i) (es ! k)))"
    using j Suc_le_eq le_eq_less_or_eq by auto
  then show ?case
    using Suc.hyps(1) [OF n] j by (subst scan_inner_step) simp
qed

lemma scan_inner_Some:
  "scan_inner es i j = Some p \<Longrightarrow>
     \<exists>k. j \<le> k \<and> k < length es \<and> p = (es ! i, es ! k) \<and> conflict (es ! i) (es ! k)
         \<and> (\<forall>k'. j \<le> k' \<and> k' < k \<longrightarrow> \<not> conflict (es ! i) (es ! k'))"
proof (induction "length es - j" arbitrary: j)
  case 0
  then show ?case by (subst (asm) scan_inner_step) simp
next
  case (Suc n)
  then have j: "j < length es" and n: "n = length es - Suc j" by simp_all
  show ?case
  proof (cases "conflict (es ! i) (es ! j)")
    case True
    then have "p = (es ! i, es ! j)"
      using Suc.prems j by (subst (asm) scan_inner_step) simp
    then show ?thesis using True j by auto
  next
    case False
    then have "scan_inner es i (Suc j) = Some p"
      using Suc.prems j by (subst (asm) scan_inner_step) simp
    from Suc.hyps(1) [OF n this] obtain k where k:
      "Suc j \<le> k" "k < length es" "p = (es ! i, es ! k)" "conflict (es ! i) (es ! k)"
      "\<forall>k'. Suc j \<le> k' \<and> k' < k \<longrightarrow> \<not> conflict (es ! i) (es ! k')"
      by blast
    have "\<forall>k'. j \<le> k' \<and> k' < k \<longrightarrow> \<not> conflict (es ! i) (es ! k')"
      using k(5) False by (metis Suc_leI le_eq_less_or_eq)
    then show ?thesis using k by (intro exI [of _ k]) simp
  qed
qed

lemma scan_outer_step:
  "scan_outer es i =
     (if i < length es then
        (case scan_inner es i (Suc i) of Some p \<Rightarrow> Some p | None \<Rightarrow> scan_outer es (Suc i))
      else None)"
  by (subst scan_outer.simps) (simp split: option.splits)

lemma scan_outer_None:
  "(scan_outer es i = None)
     = (\<forall>a b. i \<le> a \<and> a < b \<and> b < length es \<longrightarrow> \<not> conflict (es ! a) (es ! b))"
proof (induction "length es - i" arbitrary: i)
  case 0
  then show ?case by (subst scan_outer_step) auto
next
  case (Suc n)
  then have i: "i < length es" and n: "n = length es - Suc i" by simp_all
  have split: "(\<forall>a b. i \<le> a \<and> a < b \<and> b < length es \<longrightarrow> \<not> conflict (es ! a) (es ! b))
      = ((\<forall>b. Suc i \<le> b \<and> b < length es \<longrightarrow> \<not> conflict (es ! i) (es ! b))
         \<and> (\<forall>a b. Suc i \<le> a \<and> a < b \<and> b < length es \<longrightarrow> \<not> conflict (es ! a) (es ! b)))"
    using Suc_le_eq le_eq_less_or_eq by auto
  show ?case
    unfolding split
    using Suc.hyps(1) [OF n] i scan_inner_None [of es i "Suc i"]
    by (subst scan_outer_step) (auto split: option.splits)
qed

lemma scan_outer_Some:
  "scan_outer es i = Some p \<Longrightarrow>
     \<exists>a b. i \<le> a \<and> a < b \<and> b < length es \<and> p = (es ! a, es ! b) \<and> conflict (es ! a) (es ! b)
         \<and> (\<forall>a' b'. i \<le> a' \<and> a' < b' \<and> b' < length es \<and> (a' < a \<or> (a' = a \<and> b' < b))
               \<longrightarrow> \<not> conflict (es ! a') (es ! b'))"
proof (induction "length es - i" arbitrary: i)
  case 0
  then show ?case by (subst (asm) scan_outer_step) simp
next
  case (Suc n)
  then have i: "i < length es" and n: "n = length es - Suc i" by simp_all
  show ?case
  proof (cases "scan_inner es i (Suc i)")
    case (Some q)
    then have "q = p"
      using Suc.prems i by (subst (asm) scan_outer_step) simp
    with Some have "scan_inner es i (Suc i) = Some p" by simp
    from scan_inner_Some [OF this] obtain k where k:
      "Suc i \<le> k" "k < length es" "p = (es ! i, es ! k)" "conflict (es ! i) (es ! k)"
      "\<forall>k'. Suc i \<le> k' \<and> k' < k \<longrightarrow> \<not> conflict (es ! i) (es ! k')"
      by blast
    have "\<forall>a' b'. i \<le> a' \<and> a' < b' \<and> b' < length es \<and> (a' < i \<or> (a' = i \<and> b' < k))
               \<longrightarrow> \<not> conflict (es ! a') (es ! b')"
      using k(5) by (metis Suc_leI not_le)
    then show ?thesis
      using k by (intro exI [of _ i] exI [of _ k]) simp
  next
    case None
    then have rest: "scan_outer es (Suc i) = Some p"
      using Suc.prems i by (subst (asm) scan_outer_step) simp
    from Suc.hyps(1) [OF n rest] obtain a b where ab:
      "Suc i \<le> a" "a < b" "b < length es" "p = (es ! a, es ! b)" "conflict (es ! a) (es ! b)"
      "\<forall>a' b'. Suc i \<le> a' \<and> a' < b' \<and> b' < length es \<and> (a' < a \<or> (a' = a \<and> b' < b))
               \<longrightarrow> \<not> conflict (es ! a') (es ! b')"
      by blast
    have row: "\<forall>k. Suc i \<le> k \<and> k < length es \<longrightarrow> \<not> conflict (es ! i) (es ! k)"
      using None by (simp add: scan_inner_None)
    have "\<forall>a' b'. i \<le> a' \<and> a' < b' \<and> b' < length es \<and> (a' < a \<or> (a' = a \<and> b' < b))
               \<longrightarrow> \<not> conflict (es ! a') (es ! b')"
    proof (intro allI impI)
      fix a' b'
      assume h: "i \<le> a' \<and> a' < b' \<and> b' < length es \<and> (a' < a \<or> (a' = a \<and> b' < b))"
      show "\<not> conflict (es ! a') (es ! b')"
      proof (cases "a' = i")
        case True
        then show ?thesis using row h by auto
      next
        case False
        then have "Suc i \<le> a'" using h by simp
        then show ?thesis using ab(6) h by blast
      qed
    qed
    then show ?thesis
      using ab by (intro exI [of _ a] exI [of _ b]) simp
  qed
qed

lemma flat_entries_collect:
  "collect_entries (selected_courses reg) [] = flat_entries reg"
  by (simp add: collect_entries_eq flat_entries_def)

lemma JadwalBentrokRule_validate_eq:
  "JadwalBentrokRule_validate s =
     (case scan_outer (flat_entries (st_registration s)) 0 of
        Some (a, b) \<Rightarrow>
          ((False, bentrok_msg a b),
           log WARNING (bentrok_msg a b) (log INFO ''Memeriksa bentrok jadwal...'' s))
      | None \<Rightarrow> ((True, ''Tidak ada jadwal bentrok.''), log INFO ''Memeriksa bentrok jadwal...'' s))"
  by (simp add: JadwalBentrokRule_validate_def Let_def flat_entries_collect
      split: option.splits prod.splits)

lemma JadwalBentrokRule_passes_iff:
  "fst (fst (JadwalBentrokRule_validate s)) =
     (\<not> (\<exists>i j. i < j \<and> j < length (flat_entries (st_registration s))
            \<and> conflict (flat_entries (st_registration s) ! i) (flat_entries (st_registration s) ! j)))"
proof (cases "scan_outer (flat_entries (st_registration s)) 0")
  case None
  then show ?thesis
    using scan_outer_None [of "flat_entries (st_registration s)" 0]
    by (simp add: JadwalBentrokRule_validate_eq)
next
  case (Some p)
  then have "\<exists>i j. i < j \<and> j < length (flat_entries (st_registration s))
            \<and> conflict (flat_entries (st_registration s) ! i) (flat_entries (st_registration s) ! j)"
    using scan_outer_None [of "flat_entries (st_registration s)" 0] by auto
  then show ?thesis
    using Some by (simp add: JadwalBentrokRule_validate_eq split: prod.splits)
qed

lemma first_conflict_iff:
  "first_conflict es i j =
     (i < j \<and> j < length es \<and> conflict (es ! i) (es ! j)
      \<and> (\<forall>a b. a < b \<and> b < length es \<and> (a < i \<or> (a = i \<and> b < j)) \<longrightarrow> \<not> conflict (es ! a) (es ! b)))"
  unfolding first_conflict_def by auto

lemma first_conflict_unique:
  assumes "first_conflict es i j" and "first_conflict es i' j'"
  shows "i = i' \<and> j = j'"
proof -
  have a: "i < j" "j < length es" "conflict (es ! i) (es ! j)"
    and a': "\<And>a b. a < b \<Longrightarrow> b < length es \<Longrightarrow> a < i \<or> (a = i \<and> b < j) \<Longrightarrow> \<not> conflict (es ! a) (es ! b)"
    using assms(1) unfolding first_conflict_iff by blast+
  have b: "i' < j'" "j' < length es" "conflict (es ! i') (es ! j')"
    and b': "\<And>a b. a < b \<Longrightarrow> b < length es \<Longrightarrow> a < i' \<or> (a = i' \<and> b < j') \<Longrightarrow> \<not> conflict (es ! a) (es ! b)"
    using assms(2) unfolding first_conflict_iff by blast+
  have "\<not> (i' < i \<or> (i' = i \<and> j' < j))" using a' [OF b(1) b(2)] b(3) by blast
  moreover have "\<not> (i < i' \<or> (i = i' \<and> j < j'))" using b' [OF a(1) a(2)] a(3) by blast
  ultimately show ?thesis by auto
qed

lemma JadwalBentrokRule_fails_first:
  assumes "\<not> fst (fst (JadwalBentrokRule_validate s))"
  shows "\<exists>i j. first_conflict (flat_entries (st_registration s)) i j
           \<and> JadwalBentrokRule_validate s =
               ((False, bentrok_msg (flat_entries (st_registration s) ! i) (flat_entries (st_registration s) ! j)),
                log WARNING (bentrok_msg (flat_entries (st_registration s) ! i) (flat_entries (st_registration s) ! j))
                  (log INFO ''Memeriksa bentrok jadwal...'' s))"
proof -
  let ?es = "flat_entries (st_registration s)"
  obtain p where p: "scan_outer ?es 0 = Some p"
    using assms by (cases "scan_outer ?es 0") (simp_all add: JadwalBentrokRule_validate_eq)
  from scan_outer_Some [OF p] obtain i j where ij:
    "i < j" "j < length ?es" "p = (?es ! i, ?es ! j)" "conflict (?es ! i) (?es ! j)"
    "\<forall>a' b'. 0 \<le> a' \<and> a' < b' \<and> b' < length ?es \<and> (a' < i \<or> (a' = i \<and> b' < j))
               \<longrightarrow> \<not> conflict (?es ! a') (?es ! b')"
    by blast
  have "first_conflict ?es i j"
    unfolding first_conflict_iff using ij by simp
  moreover have "JadwalBentrokRule_validate s =
               ((False, bentrok_msg (?es ! i) (?es ! j)),
                log WARNING (bentrok_msg (?es ! i) (?es ! j)) (log INFO ''Memeriksa bentrok jadwal...'' s))"
    using p ij(3) by (simp add: JadwalBentrokRule_validate_eq)
  ultimately show ?thesis by blast
qed

lemma conflict_simp: "conflict (d1, s1, e1, c1) (d2, s2, e2, c2) = (d1 = d2 \<and> s1 < e2 \<and> s2 < e1)"
  by (simp add: conflict_def)

lemma scan_inner_end: "length es \<le> j \<Longrightarrow> scan_inner es i j = None"
  by (subst scan_inner_step) simp

lemma scan_outer_end: "length es \<le> i \<Longrightarrow> scan_outer es i = None"
  by (subst scan_outer_step) simp

lemma scan_two:
  "scan_outer [a, b] 0 = (if conflict a b then Some (a, b) else None)"
proof -
  have i1: "scan_inner [a, b] 0 (Suc 0) = (if conflict a b then Some (a, b) else None)"
    by (subst scan_inner_step) (simp add: scan_inner_end)
  have i2: "scan_inner [a, b] (Suc 0) (Suc (Suc 0)) = None"
    by (simp add: scan_inner_end)
  have o2: "scan_outer [a, b] (Suc 0) = None"
    by (subst scan_outer_step) (simp add: i2 scan_outer_end)
  show ?thesis
    by (subst scan_outer_step) (simp add: i1 o2)
qed

subsection \<open>Formatting a time\<close>

lemma digit_char_mod: "digit_char (k mod 10) = digit_char k"
  by (simp add: digit_char_def)

lemma fmt_02d_two_digits:
  assumes "0 \<le> n" and "n < 100"
  shows "fmt_02d n = [digit_char (nat n div 10), digit_char (nat n mod 10)]"
proof (cases "nat n < 10")
  case True
  then have "str_nat (nat n) = [digit_char (nat n)]"
    by (subst str_nat.simps) simp
  moreover have "digit_char (nat n div 10) = CHR ''0''"
    using True by (simp add: digit_char_def)
  ultimately show ?thesis
    using assms by (simp add: fmt_02d_def zfill_def digit_char_mod)
next
  case False
  have small: "nat n div 10 < 10"
    using assms by simp
  have "str_nat (nat n) = str_nat (nat n div 10) @ [digit_char (nat n mod 10)]"
    using False by (subst str_nat.simps) simp
  also have "str_nat (nat n div 10) = [digit_char (nat n div 10)]"
    using small by (subst str_nat.simps) simp
  finally show ?thesis
    using assms by (simp add: fmt_02d_def zfill_def)
qed

lemma format_time_digits:
  assumes "0 \<le> m" and "m < 6000"
  shows "format_time m =
     [digit_char (nat (m div 60) div 10), digit_char (nat (m div 60) mod 10), CHR '':'',
      digit_char (nat (m mod 60) div 10), digit_char (nat (m mod 60) mod 10)]"
proof -
  have h: "0 \<le> m div 60" "m div 60 < 100"
    using assms by simp_all
  have mm: "0 \<le> m mod 60" "m mod 60 < 100"
    by simp_all
  show ?thesis
    by (simp add: format_time_def Let_def fmt_02d_two_digits [OF h] fmt_02d_two_digits [OF mm])
qed

lemma format_time_examples:
  "format_time (minutes 9 0) = ''09:00''"
  "format_time (minutes 11 0) = ''11:00''"
  "format_time (minutes 10 30) = ''10:30''"
  "format_time (minutes 12 0) = ''12:00''"
  by code_simp+

subsection \<open>Entries and the course they come from\<close>

lemma entry_code_tag [simp]: "entry_code (tag c x) = c"
  by (cases x) (simp add: entry_code_def tag_def)

lemma bentrok_msg_names:
  "\<exists>d1 s1 e1 d2 s2 e2. bentrok_msg a b = bentrok_msg (d1, s1, e1, entry_code a) (d2, s2, e2, entry_code b)"
proof -
  obtain d1 s1 e1 c1 where a: "a = (d1, s1, e1, c1)" by (cases a) auto
  obtain d2 s2 e2 c2 where b: "b = (d2, s2, e2, c2)" by (cases b) auto
  show ?thesis
    unfolding a b by (simp add: entry_code_def) blast
qed

lemma flat_entries_block:
  assumes "c \<in> set (selected_courses reg)"
  shows "\<exists>off. off + length (schedule c) \<le> length (flat_entries reg)
           \<and> (\<forall>k < length (schedule c). flat_entries reg ! (off + k) = tag (code c) (schedule c ! k))"
proof -
  from assms obtain xs ys where sel: "selected_courses reg = xs @ c # ys"
    by (meson split_list)
  let ?F = "\<lambda>cs. concat (map (\<lambda>c. map (tag (code c)) (schedule c)) cs)"
  have fe: "flat_entries reg = ?F xs @ map (tag (code c)) (schedule c) @ ?F ys"
    by (simp add: flat_entries_def sel)
  have "\<forall>k < length (schedule c). flat_entries reg ! (length (?F xs) + k) = tag (code c) (schedule c ! k)"
    unfolding fe by (simp add: nth_append)
  moreover have "length (?F xs) + length (schedule c) \<le> length (flat_entries reg)"
    unfolding fe by simp
  ultimately show ?thesis by blast
qed

section \<open>The claims\<close>

subsection \<open>RegistrationService.run\_registration\<close>

text \<open>
  Claim C1. For every registration and every rule list, \<open>run_registration\<close> calls
  \<open>validate\<close> of every rule, in list order, whatever the earlier rules returned: the
  state it leaves is the start record, then the effect of every rule's \<open>validate\<close>
  folded over the list from left to right, then the closing record. It returns
  \<open>False\<close> with the messages of exactly the failing rules, in list order, when a rule
  fails, and \<open>True\<close> with the one message \<open>Validasi sukses.\<close> otherwise. So the boolean is
  the conjunction of the rules' outcomes, and the message list is as long as the
  number of failing rules, or has length 1 when all pass. A rule's outcome does not
  depend on the logger, so it is written as the outcome at the state of the call.
\<close>

theorem run_registration_aggregates:
  "fst (run_registration s) =
     (if list_all (\<lambda>r. fst (fst (validate r s))) (st_rules s)
      then (True, [''Validasi sukses.''])
      else (False, map snd (filter (\<lambda>out. \<not> fst out)
                      (map (\<lambda>r. fst (validate r s)) (st_rules s)))))
   \<and> fst (fst (run_registration s)) = list_all (\<lambda>r. fst (fst (validate r s))) (st_rules s)
   \<and> length (snd (fst (run_registration s))) =
       (if list_all (\<lambda>r. fst (fst (validate r s))) (st_rules s) then 1
        else length (filter (\<lambda>r. \<not> fst (fst (validate r s))) (st_rules s)))
   \<and> snd (run_registration s) =
       (let s1 = log INFO (''Memulai validasi pendaftaran untuk: ''
                   @ student_name (st_registration s)) s;
            s2 = foldl (\<lambda>t r. snd (validate r t)) s1 (st_rules s);
            n = length (filter (\<lambda>r. \<not> fst (fst (validate r s))) (st_rules s))
        in if list_all (\<lambda>r. fst (fst (validate r s))) (st_rules s)
           then log INFO ''Semua validasi berhasil.'' s2
           else log ERROR (''Validasi gagal dengan '' @ str_int (int n) @ '' error.'') s2)"
proof -
  have a: "fst (fst (run_registration s)) = list_all (\<lambda>r. fst (fst (validate r s))) (st_rules s)"
    by (simp add: run_registration_result)
  have b: "length (snd (fst (run_registration s))) =
       (if list_all (\<lambda>r. fst (fst (validate r s))) (st_rules s) then 1
        else length (filter (\<lambda>r. \<not> fst (fst (validate r s))) (st_rules s)))"
    unfolding run_registration_result using length_failures [of s "st_rules s"] by simp
  show ?thesis
    using a b run_registration_result [of s] run_registration_state [of s] by blast
qed

text \<open>
  The demo's run (rules credit cap 24, prerequisites, schedule): the cap passes, the
  other two rules fail, and the two messages come back in rule order.
\<close>

lemma run_registration_demo:
  "fst (run_registration demo_state) =
     (False, [''Prasyarat tidak terpenuhi: IFS300 butuh FIS201'',
              ''Jadwal bentrok antara MAT101 (09:00-11:00) dan FIS201 (10:30-12:00)''])"
  by code_simp

lemma run_registration_demo_log:
  "handled (st_logger (snd (run_registration demo_state))) =
     [(INFO, ''Memulai validasi pendaftaran untuk: Ani''),
      (INFO, ''Memeriksa total SKS: 10/24''),
      (INFO, ''Memeriksa prasyarat mata kuliah...''),
      (WARNING, ''Prasyarat tidak terpenuhi: IFS300 butuh FIS201''),
      (INFO, ''Memeriksa bentrok jadwal...''),
      (WARNING, ''Jadwal bentrok antara MAT101 (09:00-11:00) dan FIS201 (10:30-12:00)''),
      (ERROR, ''Validasi gagal dengan 2 error.'')]"
  by code_simp

subsection \<open>SksLimitRule\<close>

text \<open>
  Claim C2. \<open>SksLimitRule.validate\<close> passes exactly when the sum of \<open>sks\<close> over the
  selected courses is at most \<open>max_sks\<close>; the boundary, a cap equal to the sum, passes;
  an empty selection has sum 0 and passes under every cap that is not negative (the
  specification configures a positive cap); and the failure message is
  \<open>Total SKS (total) melebihi batas maksimum (max_sks).\<close>, which reports both numbers.
\<close>

theorem SksLimitRule_validate_correct:
  "fst (SksLimitRule_validate m s) =
     (if sum_list (map sks (selected_courses (st_registration s))) \<le> m
      then (True, ''SKS OK.'')
      else (False, ''Total SKS ('' @ str_int (sum_list (map sks (selected_courses (st_registration s))))
                   @ '') melebihi batas maksimum ('' @ str_int m @ '').''))
   \<and> fst (fst (SksLimitRule_validate m s))
       = (sum_list (map sks (selected_courses (st_registration s))) \<le> m)
   \<and> fst (SksLimitRule_validate (sum_list (map sks (selected_courses (st_registration s)))) s)
       = (True, ''SKS OK.'')
   \<and> (selected_courses (st_registration s) = [] \<and> 0 \<le> m
        \<longrightarrow> fst (SksLimitRule_validate m s) = (True, ''SKS OK.''))"
  by (simp add: SksLimitRule_validate_def Let_def)

theorem SksLimitRule_validate_correct_witness:
  "selected_courses (st_registration
       (demo_state\<lparr>st_registration := demo_registration\<lparr>selected_courses := []\<rparr>\<rparr>)) = []
   \<and> (0::int) \<le> 24
   \<and> fst (SksLimitRule_validate 24
            (demo_state\<lparr>st_registration := demo_registration\<lparr>selected_courses := []\<rparr>\<rparr>))
       = (True, ''SKS OK.'')
   \<and> fst (SksLimitRule_validate 24 demo_state) = (True, ''SKS OK.'')
   \<and> fst (SksLimitRule_validate 10 demo_state) = (True, ''SKS OK.'')
   \<and> fst (SksLimitRule_validate 5 demo_state)
       = (False, ''Total SKS (10) melebihi batas maksimum (5).'')"
proof -
  have h: "selected_courses (st_registration
       (demo_state\<lparr>st_registration := demo_registration\<lparr>selected_courses := []\<rparr>\<rparr>)) = []"
    by simp
  have v1: "fst (SksLimitRule_validate 24 demo_state) = (True, ''SKS OK.'')"
    by code_simp
  have v2: "fst (SksLimitRule_validate 10 demo_state) = (True, ''SKS OK.'')"
    by code_simp
  have v3: "fst (SksLimitRule_validate 5 demo_state)
       = (False, ''Total SKS (10) melebihi batas maksimum (5).'')"
    by code_simp
  show ?thesis
    using SksLimitRule_validate_correct
      [where s = "demo_state\<lparr>st_registration := demo_registration\<lparr>selected_courses := []\<rparr>\<rparr>"
         and m = 24]
      h v1 v2 v3
    by simp
qed

text \<open>
  The constructor does not reject a negative cap; under such a cap the empty selection
  fails, since its sum 0 exceeds the cap.
\<close>

lemma SksLimitRule_negative_cap:
  "fst (SksLimitRule_validate (- 1) (state_of []))
     = (False, ''Total SKS (0) melebihi batas maksimum (-1).'')"
  by code_simp

subsection \<open>PrerequisiteRule\<close>

text \<open>
  Claim C3. \<open>PrerequisiteRule.validate\<close> passes exactly when every prerequisite of
  every selected course is among the completed courses. When it fails, its one
  message lists all the missing pairs, \<open>course butuh prerequisite\<close> joined by commas:
  the pairs are those of \<open>all_missing_pairs\<close>, that is every (course code,
  prerequisite) with the prerequisite not completed. A course without prerequisites
  adds nothing: the result is the same with the course and without it. A
  prerequisite that is the code of a selected course and is not completed is among
  the missing pairs and makes the rule fail.
\<close>

theorem PrerequisiteRule_validate_correct:
  "fst (fst (PrerequisiteRule_validate s)) =
     (\<forall>c \<in> set (selected_courses (st_registration s)).
        \<forall>p \<in> set (prerequisites c). p \<in> set (completed_courses (st_registration s)))
   \<and> fst (PrerequisiteRule_validate s) =
       (if all_missing_pairs (st_registration s) = [] then (True, ''Prasyarat OK.'')
        else (False, ''Prasyarat tidak terpenuhi: ''
                     @ join '', '' (map butuh (all_missing_pairs (st_registration s)))))
   \<and> set (all_missing_pairs (st_registration s)) =
       {(code c, p) | c p. c \<in> set (selected_courses (st_registration s))
                          \<and> p \<in> set (prerequisites c)
                          \<and> p \<notin> set (completed_courses (st_registration s))}
   \<and> (prerequisites c0 = [] \<longrightarrow>
        fst (PrerequisiteRule_validate
               (s\<lparr>st_registration := reg\<lparr>selected_courses := cs1 @ c0 # cs2\<rparr>\<rparr>))
          = fst (PrerequisiteRule_validate
               (s\<lparr>st_registration := reg\<lparr>selected_courses := cs1 @ cs2\<rparr>\<rparr>)))
   \<and> (c \<in> set (selected_courses (st_registration s)) \<and> p \<in> set (prerequisites c)
        \<and> p \<notin> set (completed_courses (st_registration s))
        \<and> p \<in> code ` set (selected_courses (st_registration s))
        \<longrightarrow> (code c, p) \<in> set (all_missing_pairs (st_registration s))
            \<and> \<not> fst (fst (PrerequisiteRule_validate s)))"
proof -
  have a: "fst (fst (PrerequisiteRule_validate s)) =
     (\<forall>c \<in> set (selected_courses (st_registration s)).
        \<forall>p \<in> set (prerequisites c). p \<in> set (completed_courses (st_registration s)))"
    unfolding all_missing_pairs_empty_iff [symmetric]
    by (simp add: PrerequisiteRule_validate_eq)
  have b: "prerequisites c0 = [] \<longrightarrow>
        fst (PrerequisiteRule_validate
               (s\<lparr>st_registration := reg\<lparr>selected_courses := cs1 @ c0 # cs2\<rparr>\<rparr>))
          = fst (PrerequisiteRule_validate
               (s\<lparr>st_registration := reg\<lparr>selected_courses := cs1 @ cs2\<rparr>\<rparr>))"
    by (simp add: PrerequisiteRule_validate_eq all_missing_pairs_no_prerequisites)
  have c: "c \<in> set (selected_courses (st_registration s)) \<and> p \<in> set (prerequisites c)
        \<and> p \<notin> set (completed_courses (st_registration s))
        \<and> p \<in> code ` set (selected_courses (st_registration s))
        \<longrightarrow> (code c, p) \<in> set (all_missing_pairs (st_registration s))
            \<and> \<not> fst (fst (PrerequisiteRule_validate s))"
    unfolding a set_all_missing_pairs by blast
  show ?thesis
    using a b c PrerequisiteRule_validate_eq [of s] set_all_missing_pairs [of "st_registration s"]
    by blast
qed

text \<open>
  On the demo's registration: \<open>MAT101\<close> has no prerequisite; \<open>IFS300\<close> needs
  \<open>FIS201\<close>, which is selected with it and not completed.
\<close>

theorem PrerequisiteRule_validate_correct_witness:
  "prerequisites mat101 = []
   \<and> fst (PrerequisiteRule_validate
            (demo_state\<lparr>st_registration :=
               demo_registration\<lparr>selected_courses := [] @ mat101 # [fis201, ifs300]\<rparr>\<rparr>))
       = fst (PrerequisiteRule_validate
            (demo_state\<lparr>st_registration :=
               demo_registration\<lparr>selected_courses := [] @ [fis201, ifs300]\<rparr>\<rparr>))
   \<and> ifs300 \<in> set (selected_courses (st_registration demo_state))
   \<and> ''FIS201'' \<in> set (prerequisites ifs300)
   \<and> ''FIS201'' \<notin> set (completed_courses (st_registration demo_state))
   \<and> ''FIS201'' \<in> code ` set (selected_courses (st_registration demo_state))
   \<and> (code ifs300, ''FIS201'') \<in> set (all_missing_pairs (st_registration demo_state))
   \<and> \<not> fst (fst (PrerequisiteRule_validate demo_state))
   \<and> fst (PrerequisiteRule_validate demo_state)
       = (False, ''Prasyarat tidak terpenuhi: IFS300 butuh FIS201'')"
proof -
  have h1: "prerequisites mat101 = []"
    by (simp add: mat101_def)
  have h2: "ifs300 \<in> set (selected_courses (st_registration demo_state))"
    by (simp add: demo_state_def demo_registration_def)
  have h3: "''FIS201'' \<in> set (prerequisites ifs300)"
    by (simp add: ifs300_def)
  have h4: "''FIS201'' \<notin> set (completed_courses (st_registration demo_state))"
    by (simp add: demo_state_def demo_registration_def)
  have h5: "''FIS201'' \<in> code ` set (selected_courses (st_registration demo_state))"
    by (simp add: demo_state_def demo_registration_def fis201_def)
  have v: "fst (PrerequisiteRule_validate demo_state)
       = (False, ''Prasyarat tidak terpenuhi: IFS300 butuh FIS201'')"
    by code_simp
  show ?thesis
    using PrerequisiteRule_validate_correct
      [where s = demo_state and ?c0.0 = mat101 and reg = demo_registration and ?cs1.0 = "[]"
         and ?cs2.0 = "[fis201, ifs300]" and c = ifs300 and p = "''FIS201''"]
      h1 h2 h3 h4 h5 v
    by blast
qed

subsection \<open>JadwalBentrokRule\<close>

text \<open>
  Claim C4. \<open>JadwalBentrokRule.validate\<close> passes exactly when no two entries of the
  flattened list (the schedule entries of all selected courses) are on the same day
  and overlap, where two entries overlap when \<open>start_a < end_b\<close> and
  \<open>start_b < end_a\<close>. Two entries of one day of which one ends when the other starts
  do not conflict, in either order, and a registration whose entries are exactly two
  such entries passes.
\<close>

theorem JadwalBentrokRule_validate_correct:
  "fst (fst (JadwalBentrokRule_validate s)) =
     (\<not> (\<exists>i j. i < j \<and> j < length (flat_entries (st_registration s))
            \<and> conflict (flat_entries (st_registration s) ! i)
                        (flat_entries (st_registration s) ! j)))
   \<and> conflict (d1, s1, e1, c1) (d2, s2, e2, c2) = (d1 = d2 \<and> s1 < e2 \<and> s2 < e1)
   \<and> \<not> conflict (d, s1, e1, c1) (d, e1, e2, c2)
   \<and> \<not> conflict (d, e1, e2, c2) (d, s1, e1, c1)
   \<and> (flat_entries (st_registration s) = [(d, s1, e1, c1), (d, e1, e2, c2)]
        \<or> flat_entries (st_registration s) = [(d, e1, e2, c2), (d, s1, e1, c1)]
      \<longrightarrow> fst (JadwalBentrokRule_validate s) = (True, ''Tidak ada jadwal bentrok.''))"
proof -
  have n1: "\<not> conflict (d, s1, e1, c1) (d, e1, e2, c2)"
    and n2: "\<not> conflict (d, e1, e2, c2) (d, s1, e1, c1)"
    by (simp_all add: conflict_simp)
  have adj: "flat_entries (st_registration s) = [(d, s1, e1, c1), (d, e1, e2, c2)]
        \<or> flat_entries (st_registration s) = [(d, e1, e2, c2), (d, s1, e1, c1)]
      \<longrightarrow> fst (JadwalBentrokRule_validate s) = (True, ''Tidak ada jadwal bentrok.'')"
  proof
    assume "flat_entries (st_registration s) = [(d, s1, e1, c1), (d, e1, e2, c2)]
        \<or> flat_entries (st_registration s) = [(d, e1, e2, c2), (d, s1, e1, c1)]"
    then have "scan_outer (flat_entries (st_registration s)) 0 = None"
      using n1 n2 by (auto simp only: scan_two if_False)
    then show "fst (JadwalBentrokRule_validate s) = (True, ''Tidak ada jadwal bentrok.'')"
      by (simp add: JadwalBentrokRule_validate_eq)
  qed
  have c: "conflict (d1, s1, e1, c1) (d2, s2, e2, c2) = (d1 = d2 \<and> s1 < e2 \<and> s2 < e1)"
    by (rule conflict_simp)
  show ?thesis
    using adj n1 n2 c JadwalBentrokRule_passes_iff [of s] by blast
qed

theorem JadwalBentrokRule_validate_correct_witness:
  "flat_entries (st_registration (state_of [mat101, kim110]))
     = [(''Senin'', minutes 9 0, minutes 11 0, ''MAT101''),
        (''Senin'', minutes 11 0, minutes 13 0, ''KIM110'')]
   \<and> fst (JadwalBentrokRule_validate (state_of [mat101, kim110]))
       = (True, ''Tidak ada jadwal bentrok.'')"
proof -
  have h: "flat_entries (st_registration (state_of [mat101, kim110]))
     = [(''Senin'', minutes 9 0, minutes 11 0, ''MAT101''),
        (''Senin'', minutes 11 0, minutes 13 0, ''KIM110'')]"
    by (simp add: state_of_def flat_entries_def mat101_def kim110_def tag_def)
  show ?thesis
    using JadwalBentrokRule_validate_correct
      [where s = "state_of [mat101, kim110]" and d = "''Senin''" and ?s1.0 = "minutes 9 0"
         and ?e1.0 = "minutes 11 0" and ?e2.0 = "minutes 13 0" and ?c1.0 = "''MAT101''"
         and ?c2.0 = "''KIM110''"]
      h
    by blast
qed

text \<open>
  Claim C5. When some pair of entries conflicts, there is a first conflicting pair
  \<open>(i, j)\<close> in the scan order (entries in course order then schedule order, outer index
  \<open>i\<close>, inner index \<open>j > i\<close>), and the rule returns at that pair: the result is
  \<open>False\<close> with the message of exactly this pair, and the only records written are
  the entry record and one warning with that message. The message names both course
  codes and both start-end times. Conflicts later in the scan order do not appear
  in the result.
\<close>

theorem JadwalBentrokRule_reports_first_conflict:
  "((\<exists>a b. a < b \<and> b < length (flat_entries (st_registration s))
           \<and> conflict (flat_entries (st_registration s) ! a) (flat_entries (st_registration s) ! b))
      \<longrightarrow> (\<exists>i j. first_conflict (flat_entries (st_registration s)) i j))
   \<and> (first_conflict (flat_entries (st_registration s)) i j \<longrightarrow>
        JadwalBentrokRule_validate s =
          ((False, bentrok_msg (flat_entries (st_registration s) ! i)
                               (flat_entries (st_registration s) ! j)),
           log WARNING (bentrok_msg (flat_entries (st_registration s) ! i)
                                    (flat_entries (st_registration s) ! j))
             (log INFO ''Memeriksa bentrok jadwal...'' s)))
   \<and> bentrok_msg (d1, s1, e1, c1) (d2, s2, e2, c2) =
       ''Jadwal bentrok antara '' @ c1 @ '' ('' @ format_time s1 @ ''-'' @ format_time e1
         @ '') dan '' @ c2 @ '' ('' @ format_time s2 @ ''-'' @ format_time e2 @ '')''"
proof -
  let ?es = "flat_entries (st_registration s)"
  have ex: "(\<exists>a b. a < b \<and> b < length ?es \<and> conflict (?es ! a) (?es ! b))
      \<longrightarrow> (\<exists>i j. first_conflict ?es i j)"
  proof
    assume "\<exists>a b. a < b \<and> b < length ?es \<and> conflict (?es ! a) (?es ! b)"
    then have "\<not> fst (fst (JadwalBentrokRule_validate s))"
      by (simp add: JadwalBentrokRule_passes_iff)
    from JadwalBentrokRule_fails_first [OF this] show "\<exists>i j. first_conflict ?es i j"
      by blast
  qed
  have first: "first_conflict ?es i j \<longrightarrow>
        JadwalBentrokRule_validate s =
          ((False, bentrok_msg (?es ! i) (?es ! j)),
           log WARNING (bentrok_msg (?es ! i) (?es ! j)) (log INFO ''Memeriksa bentrok jadwal...'' s))"
  proof
    assume f: "first_conflict ?es i j"
    then have "\<exists>a b. a < b \<and> b < length ?es \<and> conflict (?es ! a) (?es ! b)"
      unfolding first_conflict_iff by blast
    then have "\<not> fst (fst (JadwalBentrokRule_validate s))"
      by (simp add: JadwalBentrokRule_passes_iff)
    from JadwalBentrokRule_fails_first [OF this] obtain i' j' where
      f': "first_conflict ?es i' j'" and
      v: "JadwalBentrokRule_validate s =
          ((False, bentrok_msg (?es ! i') (?es ! j')),
           log WARNING (bentrok_msg (?es ! i') (?es ! j')) (log INFO ''Memeriksa bentrok jadwal...'' s))"
      by blast
    have "i' = i \<and> j' = j"
      by (rule first_conflict_unique [OF f' f])
    with v show "JadwalBentrokRule_validate s =
          ((False, bentrok_msg (?es ! i) (?es ! j)),
           log WARNING (bentrok_msg (?es ! i) (?es ! j)) (log INFO ''Memeriksa bentrok jadwal...'' s))"
      by simp
  qed
  have msg: "bentrok_msg (d1, s1, e1, c1) (d2, s2, e2, c2) =
       ''Jadwal bentrok antara '' @ c1 @ '' ('' @ format_time s1 @ ''-'' @ format_time e1
         @ '') dan '' @ c2 @ '' ('' @ format_time s2 @ ''-'' @ format_time e2 @ '')''"
    by (simp add: bentrok_msg_def)
  show ?thesis
    using ex first msg by blast
qed

text \<open>
  With \<open>MAT101\<close>, \<open>FIS201\<close> and \<open>KIM110\<close> selected the entries 1 and 2 conflict as
  well, and the message is still that of the pair \<open>(0, 1)\<close>.
\<close>

theorem JadwalBentrokRule_reports_first_conflict_witness:
  "(1::nat) < 2
   \<and> 2 < length (flat_entries (st_registration (state_of [mat101, fis201, kim110])))
   \<and> conflict (flat_entries (st_registration (state_of [mat101, fis201, kim110])) ! 1)
               (flat_entries (st_registration (state_of [mat101, fis201, kim110])) ! 2)
   \<and> first_conflict (flat_entries (st_registration (state_of [mat101, fis201, kim110]))) 0 1
   \<and> fst (JadwalBentrokRule_validate (state_of [mat101, fis201, kim110]))
       = (False, ''Jadwal bentrok antara MAT101 (09:00-11:00) dan FIS201 (10:30-12:00)'')"
proof -
  let ?s = "state_of [mat101, fis201, kim110]"
  have es: "flat_entries (st_registration ?s)
      = [(''Senin'', 540, 660, ''MAT101''), (''Senin'', 630, 720, ''FIS201''),
         (''Senin'', 660, 780, ''KIM110'')]"
    by (simp add: state_of_def flat_entries_def mat101_def fis201_def kim110_def tag_def
        minutes_def)
  have later: "conflict (flat_entries (st_registration ?s) ! 1) (flat_entries (st_registration ?s) ! 2)"
    unfolding es by (simp add: conflict_def)
  have f: "first_conflict (flat_entries (st_registration ?s)) 0 1"
    unfolding es by (simp add: first_conflict_def conflict_def)
  have m: "bentrok_msg (flat_entries (st_registration ?s) ! 0) (flat_entries (st_registration ?s) ! 1)
      = ''Jadwal bentrok antara MAT101 (09:00-11:00) dan FIS201 (10:30-12:00)''"
    unfolding es by code_simp
  have "JadwalBentrokRule_validate ?s =
          ((False, bentrok_msg (flat_entries (st_registration ?s) ! 0)
                               (flat_entries (st_registration ?s) ! 1)),
           log WARNING (bentrok_msg (flat_entries (st_registration ?s) ! 0)
                                    (flat_entries (st_registration ?s) ! 1))
             (log INFO ''Memeriksa bentrok jadwal...'' ?s))"
    using JadwalBentrokRule_reports_first_conflict [where s = ?s and i = 0 and j = 1] f
    by blast
  then have "fst (JadwalBentrokRule_validate ?s)
      = (False, ''Jadwal bentrok antara MAT101 (09:00-11:00) dan FIS201 (10:30-12:00)'')"
    unfolding m by simp
  then show ?thesis
    using later f by (simp add: es)
qed

text \<open>
  Claim C9. With a course \<open>MAT101\<close> on one day from 09:00 to 11:00 and a course
  \<open>FIS201\<close> on the same day from 10:30 to 12:00 selected together, the rule fails
  with the message \<open>Jadwal bentrok antara MAT101 (09:00-11:00) dan FIS201
  (10:30-12:00)\<close>, which holds both codes and both time ranges. \<open>format_time\<close> writes a
  minute of the day (and any minute count from 0 below 6000) as two digits of the
  hour, a colon and two digits of the minute.
\<close>

theorem JadwalBentrokRule_scenario_4:
  "fst (JadwalBentrokRule_validate
          (s\<lparr>st_registration := reg\<lparr>selected_courses :=
               [c1\<lparr>code := ''MAT101'', schedule := [(day, minutes 9 0, minutes 11 0)]\<rparr>,
                c2\<lparr>code := ''FIS201'', schedule := [(day, minutes 10 30, minutes 12 0)]\<rparr>]\<rparr>\<rparr>))
     = (False, ''Jadwal bentrok antara MAT101 (09:00-11:00) dan FIS201 (10:30-12:00)'')
   \<and> format_time (minutes 9 0) = ''09:00'' \<and> format_time (minutes 11 0) = ''11:00''
   \<and> format_time (minutes 10 30) = ''10:30'' \<and> format_time (minutes 12 0) = ''12:00''
   \<and> (0 \<le> m \<and> m < 6000 \<longrightarrow>
        format_time m =
          [digit_char (nat (m div 60) div 10), digit_char (nat (m div 60) mod 10), CHR '':'',
           digit_char (nat (m mod 60) div 10), digit_char (nat (m mod 60) mod 10)])"
proof -
  let ?s = "s\<lparr>st_registration := reg\<lparr>selected_courses :=
               [c1\<lparr>code := ''MAT101'', schedule := [(day, minutes 9 0, minutes 11 0)]\<rparr>,
                c2\<lparr>code := ''FIS201'', schedule := [(day, minutes 10 30, minutes 12 0)]\<rparr>]\<rparr>\<rparr>"
  have es: "flat_entries (st_registration ?s)
      = [(day, minutes 9 0, minutes 11 0, ''MAT101''), (day, minutes 10 30, minutes 12 0, ''FIS201'')]"
    by (simp add: flat_entries_def tag_def)
  have c: "conflict (day, minutes 9 0, minutes 11 0, ''MAT101'') (day, minutes 10 30, minutes 12 0, ''FIS201'')"
    by (simp add: conflict_def minutes_def)
  have v: "fst (JadwalBentrokRule_validate ?s)
     = (False, ''Jadwal bentrok antara MAT101 (09:00-11:00) dan FIS201 (10:30-12:00)'')"
    unfolding JadwalBentrokRule_validate_eq es scan_two
    using c by (simp add: bentrok_msg_def format_time_examples)
  show ?thesis
    using v format_time_examples format_time_digits [of m] by blast
qed

theorem JadwalBentrokRule_scenario_4_witness:
  "(0::int) \<le> 630 \<and> (630::int) < 6000 \<and> format_time 630 = ''10:30''"
proof -
  have d: "[digit_char (nat (630 div 60) div 10), digit_char (nat (630 div 60) mod 10), CHR '':'',
           digit_char (nat (630 mod 60) div 10), digit_char (nat (630 mod 60) mod 10)] = ''10:30''"
    by (simp add: digit_char_def)
  show ?thesis
    using JadwalBentrokRule_scenario_4 [where m = 630] d by simp
qed

text \<open>
  Claim C10, as amended. A selected course whose own schedule has two entries of one
  day that overlap makes the rule fail: the scan compares all pairs of entries,
  also two entries of one course. The message is that of the first conflicting pair
  in scan order. So it names this course code as both members when the first
  conflicting pair lies in this course, in particular when the course is the only
  one selected; an earlier conflict with another course is reported instead.
\<close>

theorem JadwalBentrokRule_self_conflict:
  "(c \<in> set (selected_courses (st_registration s)) \<and> a < b \<and> b < length (schedule c)
      \<and> conflict (tag (code c) (schedule c ! a)) (tag (code c) (schedule c ! b))
    \<longrightarrow> \<not> fst (fst (JadwalBentrokRule_validate s)))
   \<and> (first_conflict (flat_entries (st_registration s)) i j
       \<and> entry_code (flat_entries (st_registration s) ! i) = code c
       \<and> entry_code (flat_entries (st_registration s) ! j) = code c
    \<longrightarrow> (\<exists>d1 s1 e1 d2 s2 e2. fst (JadwalBentrokRule_validate s)
            = (False, bentrok_msg (d1, s1, e1, code c) (d2, s2, e2, code c))))
   \<and> (selected_courses (st_registration s) = [c] \<and> \<not> fst (fst (JadwalBentrokRule_validate s))
    \<longrightarrow> (\<exists>d1 s1 e1 d2 s2 e2. fst (JadwalBentrokRule_validate s)
            = (False, bentrok_msg (d1, s1, e1, code c) (d2, s2, e2, code c))))"
proof -
  let ?es = "flat_entries (st_registration s)"
  have named: "\<exists>d1 s1 e1 d2 s2 e2. fst (JadwalBentrokRule_validate s)
            = (False, bentrok_msg (d1, s1, e1, code c) (d2, s2, e2, code c))"
    if f: "first_conflict ?es i j" and ci: "entry_code (?es ! i) = code c"
      and cj: "entry_code (?es ! j) = code c" for i j
  proof -
    have "\<exists>a b. a < b \<and> b < length ?es \<and> conflict (?es ! a) (?es ! b)"
      using f unfolding first_conflict_iff by blast
    then have "\<not> fst (fst (JadwalBentrokRule_validate s))"
      by (simp add: JadwalBentrokRule_passes_iff)
    from JadwalBentrokRule_fails_first [OF this] obtain i' j' where
      f': "first_conflict ?es i' j'" and
      v: "JadwalBentrokRule_validate s =
          ((False, bentrok_msg (?es ! i') (?es ! j')),
           log WARNING (bentrok_msg (?es ! i') (?es ! j')) (log INFO ''Memeriksa bentrok jadwal...'' s))"
      by blast
    have "i' = i \<and> j' = j"
      by (rule first_conflict_unique [OF f' f])
    with v have "fst (JadwalBentrokRule_validate s) = (False, bentrok_msg (?es ! i) (?es ! j))"
      by simp
    then show ?thesis
      using bentrok_msg_names [of "?es ! i" "?es ! j"] ci cj by auto
  qed
  have fails: "\<not> fst (fst (JadwalBentrokRule_validate s))"
    if c: "c \<in> set (selected_courses (st_registration s))" and ab: "a < b" "b < length (schedule c)"
      and ov: "conflict (tag (code c) (schedule c ! a)) (tag (code c) (schedule c ! b))"
  proof -
    from flat_entries_block [OF c] obtain off where
      len: "off + length (schedule c) \<le> length ?es" and
      nth: "\<forall>k < length (schedule c). ?es ! (off + k) = tag (code c) (schedule c ! k)"
      by blast
    have "off + a < off + b" "off + b < length ?es"
      using ab len by simp_all
    moreover have "conflict (?es ! (off + a)) (?es ! (off + b))"
      using nth ab ov by simp
    ultimately have "\<exists>i j. i < j \<and> j < length ?es \<and> conflict (?es ! i) (?es ! j)"
      by blast
    then show ?thesis
      by (simp add: JadwalBentrokRule_passes_iff)
  qed
  have single: "\<exists>d1 s1 e1 d2 s2 e2. fst (JadwalBentrokRule_validate s)
            = (False, bentrok_msg (d1, s1, e1, code c) (d2, s2, e2, code c))"
    if sel: "selected_courses (st_registration s) = [c]"
      and nf: "\<not> fst (fst (JadwalBentrokRule_validate s))"
  proof -
    have es: "?es = map (tag (code c)) (schedule c)"
      by (simp add: flat_entries_def sel)
    from JadwalBentrokRule_fails_first [OF nf] obtain i j where
      f: "first_conflict ?es i j" by blast
    then have "i < length ?es" "j < length ?es"
      unfolding first_conflict_iff by simp_all
    then have "entry_code (?es ! i) = code c" "entry_code (?es ! j) = code c"
      unfolding es by simp_all
    with f show ?thesis by (rule named)
  qed
  show ?thesis
    using named fails single by blast
qed

theorem JadwalBentrokRule_self_conflict_witness:
  "bio120 \<in> set (selected_courses (st_registration (state_of [bio120])))
   \<and> (0::nat) < 1 \<and> 1 < length (schedule bio120)
   \<and> conflict (tag (code bio120) (schedule bio120 ! 0)) (tag (code bio120) (schedule bio120 ! 1))
   \<and> selected_courses (st_registration (state_of [bio120])) = [bio120]
   \<and> \<not> fst (fst (JadwalBentrokRule_validate (state_of [bio120])))
   \<and> first_conflict (flat_entries (st_registration (state_of [bio120]))) 0 1
   \<and> entry_code (flat_entries (st_registration (state_of [bio120])) ! 0) = code bio120
   \<and> entry_code (flat_entries (st_registration (state_of [bio120])) ! 1) = code bio120
   \<and> fst (JadwalBentrokRule_validate (state_of [bio120]))
       = (False, ''Jadwal bentrok antara BIO120 (09:00-11:00) dan BIO120 (10:00-12:00)'')"
proof -
  let ?s = "state_of [bio120]"
  have es: "flat_entries (st_registration ?s)
      = [(''Senin'', 540, 660, ''BIO120''), (''Senin'', 600, 720, ''BIO120'')]"
    by (simp add: state_of_def flat_entries_def bio120_def tag_def minutes_def)
  have h1: "bio120 \<in> set (selected_courses (st_registration ?s))"
    and h5: "selected_courses (st_registration ?s) = [bio120]"
    by (simp_all add: state_of_def)
  have h2: "1 < length (schedule bio120)"
    by (simp add: bio120_def)
  have h3: "conflict (tag (code bio120) (schedule bio120 ! 0)) (tag (code bio120) (schedule bio120 ! 1))"
    by (simp add: bio120_def tag_def conflict_def minutes_def)
  have f: "first_conflict (flat_entries (st_registration ?s)) 0 1"
    unfolding es by (simp add: first_conflict_def conflict_def)
  have c0: "entry_code (flat_entries (st_registration ?s) ! 0) = code bio120"
    and c1: "entry_code (flat_entries (st_registration ?s) ! 1) = code bio120"
    unfolding es by (simp_all add: entry_code_def bio120_def)
  have v: "fst (JadwalBentrokRule_validate ?s)
       = (False, ''Jadwal bentrok antara BIO120 (09:00-11:00) dan BIO120 (10:00-12:00)'')"
    by code_simp
  have nf: "\<not> fst (fst (JadwalBentrokRule_validate ?s))"
    using JadwalBentrokRule_self_conflict [where s = ?s and c = bio120 and a = 0 and b = 1]
      h1 h2 h3
    by blast
  show ?thesis
    using h1 h2 h3 h5 nf f c0 c1 v by simp
qed

text \<open>
  The claim as first stated, that the message of such a registration always names
  the self-conflicting course as both members, fails: with \<open>MAT101\<close> selected before
  \<open>BIO120\<close> the first conflicting pair is \<open>MAT101\<close> with the first entry of \<open>BIO120\<close>.
\<close>

theorem JadwalBentrokRule_self_conflict_counterexample:
  "bio120 \<in> set (selected_courses (st_registration (state_of [mat101, bio120])))
   \<and> conflict (tag (code bio120) (schedule bio120 ! 0)) (tag (code bio120) (schedule bio120 ! 1))
   \<and> fst (JadwalBentrokRule_validate (state_of [mat101, bio120]))
       = (False, ''Jadwal bentrok antara MAT101 (09:00-11:00) dan BIO120 (09:00-11:00)'')
   \<and> fst (JadwalBentrokRule_validate (state_of [mat101, bio120]))
       \<noteq> (False, ''Jadwal bentrok antara BIO120 (09:00-11:00) dan BIO120 (10:00-12:00)'')"
proof -
  have h1: "bio120 \<in> set (selected_courses (st_registration (state_of [mat101, bio120])))"
    by (simp add: state_of_def)
  have h3: "conflict (tag (code bio120) (schedule bio120 ! 0)) (tag (code bio120) (schedule bio120 ! 1))"
    by (simp add: bio120_def tag_def conflict_def minutes_def)
  have v: "fst (JadwalBentrokRule_validate (state_of [mat101, bio120]))
       = (False, ''Jadwal bentrok antara MAT101 (09:00-11:00) dan BIO120 (09:00-11:00)'')"
    by code_simp
  show ?thesis
    using h1 h3 by (simp add: v)
qed

subsection \<open>Determinism, configuration and frame of run\_registration\<close>

text \<open>
  Claim C6. \<open>run_registration\<close> is deterministic and the logger is only written:
  replacing the logger of the state by any other logger (disabled, another level,
  other handled records) leaves the returned pair as it is, and a second call, made
  in the state the first call left, returns what the first returned.
\<close>

theorem run_registration_deterministic:
  "fst (run_registration (s\<lparr>st_logger := lg\<rparr>)) = fst (run_registration s)
   \<and> fst (run_registration (snd (run_registration s))) = fst (run_registration s)"
proof -
  have "fst (run_registration (s\<lparr>st_logger := lg\<rparr>)) = fst (run_registration s)"
    by (rule run_registration_reads) simp_all
  moreover have "fst (run_registration (snd (run_registration s))) = fst (run_registration s)"
    by (rule run_registration_reads) (simp_all add: run_registration_frame)
  ultimately show ?thesis by simp
qed

text \<open>
  Claim C7. With an empty rule list \<open>run_registration\<close> returns \<open>True\<close> and the one
  message \<open>Validasi sukses.\<close>. The service takes any list of rules as it is, whatever
  the variants, their order and their repetitions: for every list the call returns a
  boolean, which is the conjunction of the outcomes of the rules in the list, and a
  message list that is not empty.
\<close>

theorem run_registration_empty_rules:
  "fst (run_registration (s\<lparr>st_rules := []\<rparr>)) = (True, [''Validasi sukses.''])
   \<and> (\<forall>rs. fst (fst (run_registration (s\<lparr>st_rules := rs\<rparr>)))
              = list_all (\<lambda>r. fst (fst (validate r s))) rs
          \<and> snd (fst (run_registration (s\<lparr>st_rules := rs\<rparr>))) \<noteq> [])"
proof -
  have same: "\<And>rs r. fst (validate r (s\<lparr>st_rules := rs\<rparr>)) = fst (validate r s)"
    by (rule validate_reads) simp
  have "fst (run_registration (s\<lparr>st_rules := []\<rparr>)) = (True, [''Validasi sukses.''])"
    by (simp add: run_registration_result)
  moreover have "fst (fst (run_registration (s\<lparr>st_rules := rs\<rparr>)))
              = list_all (\<lambda>r. fst (fst (validate r s))) rs" for rs
    by (simp add: run_registration_result same)
  moreover have "snd (fst (run_registration (s\<lparr>st_rules := rs\<rparr>))) \<noteq> []" for rs
    by (simp add: run_registration_result same filter_empty_conv list_all_iff)
  ultimately show ?thesis by blast
qed

text \<open>
  Claim C8. A call writes the logger only. After \<open>run_registration\<close> the registration
  (student name, completed courses, selected courses and so every course) and the
  rule list with each rule's configuration are what they were before the call, and
  the same holds after the \<open>validate\<close> of any rule. No rule keeps state from one call
  to the next: a rule called again in the state its first call left returns the same
  outcome, and so does \<open>run_registration\<close>.
\<close>

theorem run_registration_read_only:
  "st_registration (snd (run_registration s)) = st_registration s
   \<and> st_rules (snd (run_registration s)) = st_rules s
   \<and> (\<forall>r. st_registration (snd (validate r s)) = st_registration s
          \<and> st_rules (snd (validate r s)) = st_rules s
          \<and> fst (validate r (snd (validate r s))) = fst (validate r s))
   \<and> fst (run_registration (snd (run_registration s))) = fst (run_registration s)"
proof -
  have "fst (validate r (snd (validate r s))) = fst (validate r s)" for r
    by (rule validate_reads) (rule validate_frame)
  moreover have "fst (run_registration (snd (run_registration s))) = fst (run_registration s)"
    by (rule run_registration_reads) (simp_all add: run_registration_frame)
  ultimately show ?thesis
    by (simp add: run_registration_frame validate_frame)
qed

end
